theory Spec2Isabelle
  imports Complex_Main
begin

section \<open>Element values\<close>

text \<open>
  One element of a tensor of dtype floatX. Finite values are carried as exact reals,
  together with the three special values of the floating-point format: rounding, overflow
  of finite results and the sign of zero are not represented. The operations below follow
  the IEEE rules for the special values, so that a branch of a \<open>switch\<close> that is computed
  and then discarded has a value here as it has in the program.
\<close>

datatype fl = Fin real | PInf | NInf | NaN

fun fl_neg :: "fl \<Rightarrow> fl" where
  "fl_neg (Fin a) = Fin (- a)"
| "fl_neg PInf = NInf"
| "fl_neg NInf = PInf"
| "fl_neg NaN = NaN"

fun fl_add :: "fl \<Rightarrow> fl \<Rightarrow> fl" where
  "fl_add NaN y = NaN"
| "fl_add x NaN = NaN"
| "fl_add (Fin a) (Fin b) = Fin (a + b)"
| "fl_add PInf NInf = NaN"
| "fl_add NInf PInf = NaN"
| "fl_add PInf y = PInf"
| "fl_add x PInf = PInf"
| "fl_add NInf y = NInf"
| "fl_add x NInf = NInf"

fun fl_mul :: "fl \<Rightarrow> fl \<Rightarrow> fl" where
  "fl_mul NaN y = NaN"
| "fl_mul x NaN = NaN"
| "fl_mul (Fin a) (Fin b) = Fin (a * b)"
| "fl_mul (Fin a) PInf = (if a = 0 then NaN else if 0 < a then PInf else NInf)"
| "fl_mul (Fin a) NInf = (if a = 0 then NaN else if 0 < a then NInf else PInf)"
| "fl_mul PInf (Fin b) = (if b = 0 then NaN else if 0 < b then PInf else NInf)"
| "fl_mul NInf (Fin b) = (if b = 0 then NaN else if 0 < b then NInf else PInf)"
| "fl_mul PInf PInf = PInf"
| "fl_mul PInf NInf = NInf"
| "fl_mul NInf PInf = NInf"
| "fl_mul NInf NInf = PInf"

text \<open>
  \<open>true_div\<close>: no exception on a zero divisor, the quotient is an infinity or NaN. A zero
  divisor is read as \<open>+0\<close>.
\<close>

fun fl_div :: "fl \<Rightarrow> fl \<Rightarrow> fl" where
  "fl_div NaN y = NaN"
| "fl_div x NaN = NaN"
| "fl_div (Fin a) (Fin b) =
     (if b \<noteq> 0 then Fin (a / b) else if a = 0 then NaN else if 0 < a then PInf else NInf)"
| "fl_div (Fin a) PInf = Fin 0"
| "fl_div (Fin a) NInf = Fin 0"
| "fl_div PInf (Fin b) = (if 0 \<le> b then PInf else NInf)"
| "fl_div NInf (Fin b) = (if 0 \<le> b then NInf else PInf)"
| "fl_div PInf y = NaN"
| "fl_div NInf y = NaN"

instantiation fl :: "{plus, minus, uminus, times, inverse}"
begin

definition uminus_fl :: "fl \<Rightarrow> fl" where
  "uminus_fl x = fl_neg x"

definition plus_fl :: "fl \<Rightarrow> fl \<Rightarrow> fl" where
  "plus_fl x y = fl_add x y"

definition minus_fl :: "fl \<Rightarrow> fl \<Rightarrow> fl" where
  "minus_fl x y = fl_add x (fl_neg y)"

definition times_fl :: "fl \<Rightarrow> fl \<Rightarrow> fl" where
  "times_fl x y = fl_mul x y"

definition divide_fl :: "fl \<Rightarrow> fl \<Rightarrow> fl" where
  "divide_fl x y = fl_div x y"

definition inverse_fl :: "fl \<Rightarrow> fl" where
  "inverse_fl x = fl_div (Fin 1) x"

instance ..

end

section \<open>The tensor operations the distributions use\<close>

text \<open>
  The element-wise operations of \<open>pytensor.tensor\<close> that
  \<open>pymc_experimental/distributions/continuous.py\<close> calls, at one element.
\<close>

fun pt_gt :: "fl \<Rightarrow> fl \<Rightarrow> bool" where
  "pt_gt NaN y = False"
| "pt_gt x NaN = False"
| "pt_gt (Fin a) (Fin b) = (b < a)"
| "pt_gt PInf PInf = False"
| "pt_gt PInf y = True"
| "pt_gt NInf y = False"
| "pt_gt (Fin a) PInf = False"
| "pt_gt (Fin a) NInf = True"

definition pt_lt :: "fl \<Rightarrow> fl \<Rightarrow> bool" where
  "pt_lt x y = pt_gt y x"

definition pt_and :: "bool \<Rightarrow> bool \<Rightarrow> bool" where
  "pt_and p q = (p \<and> q)"

definition pt_switch :: "bool \<Rightarrow> fl \<Rightarrow> fl \<Rightarrow> fl" where
  "pt_switch c x y = (if c then x else y)"

text \<open>
  \<open>pt.isclose(a, b)\<close> with its default tolerances \<open>rtol = 1e-5\<close>, \<open>atol = 1e-8\<close> and
  \<open>equal_nan = False\<close>: finite values are close when \<open>|a - b| \<le> atol + rtol * |b|\<close>,
  infinities only to themselves, NaN to nothing.
\<close>

definition rtol :: real where
  "rtol = 1 / 10 ^ 5"

definition atol :: real where
  "atol = 1 / 10 ^ 8"

fun pt_isclose :: "fl \<Rightarrow> fl \<Rightarrow> bool" where
  "pt_isclose (Fin a) (Fin b) = (\<bar>a - b\<bar> \<le> atol + rtol * \<bar>b\<bar>)"
| "pt_isclose PInf PInf = True"
| "pt_isclose NInf NInf = True"
| "pt_isclose x y = False"

fun pt_log :: "fl \<Rightarrow> fl" where
  "pt_log (Fin a) = (if 0 < a then Fin (ln a) else if a = 0 then NInf else NaN)"
| "pt_log PInf = PInf"
| "pt_log NInf = NaN"
| "pt_log NaN = NaN"

fun pt_log1p :: "fl \<Rightarrow> fl" where
  "pt_log1p (Fin a) = (if 0 < 1 + a then Fin (ln (1 + a)) else if 1 + a = 0 then NInf else NaN)"
| "pt_log1p PInf = PInf"
| "pt_log1p NInf = NaN"
| "pt_log1p NaN = NaN"

fun pt_exp :: "fl \<Rightarrow> fl" where
  "pt_exp (Fin a) = Fin (exp a)"
| "pt_exp PInf = PInf"
| "pt_exp NInf = Fin 0"
| "pt_exp NaN = NaN"

fun pt_abs :: "fl \<Rightarrow> fl" where
  "pt_abs (Fin a) = Fin \<bar>a\<bar>"
| "pt_abs PInf = PInf"
| "pt_abs NInf = PInf"
| "pt_abs NaN = NaN"

fun pt_sign :: "fl \<Rightarrow> fl" where
  "pt_sign (Fin a) = Fin (sgn a)"
| "pt_sign PInf = Fin 1"
| "pt_sign NInf = Fin (- 1)"
| "pt_sign NaN = NaN"

fun pt_sqrt :: "fl \<Rightarrow> fl" where
  "pt_sqrt (Fin a) = (if 0 \<le> a then Fin (sqrt a) else NaN)"
| "pt_sqrt PInf = PInf"
| "pt_sqrt NInf = NaN"
| "pt_sqrt NaN = NaN"

definition is_integer :: "real \<Rightarrow> bool" where
  "is_integer y = (of_int \<lfloor>y\<rfloor> = y)"

definition is_odd_integer :: "real \<Rightarrow> bool" where
  "is_odd_integer y = (is_integer y \<and> odd \<lfloor>y\<rfloor>)"

text \<open>
  \<open>pt.pow\<close>, the \<open>pow\<close> of the C library: \<open>pow(x, 0) = 1\<close> and \<open>pow(1, y) = 1\<close> also for NaN,
  a negative base with an exponent that is not an integer gives NaN.
\<close>

fun pt_pow :: "fl \<Rightarrow> fl \<Rightarrow> fl" where
  "pt_pow (Fin a) (Fin b) =
     (if b = 0 then Fin 1
      else if 0 < a then Fin (a powr b)
      else if a = 0 then (if 0 < b then Fin 0 else PInf)
      else if is_integer b then Fin (power_int a \<lfloor>b\<rfloor>)
      else NaN)"
| "pt_pow (Fin a) PInf =
     (if \<bar>a\<bar> < 1 then Fin 0 else if \<bar>a\<bar> = 1 then Fin 1 else PInf)"
| "pt_pow (Fin a) NInf =
     (if \<bar>a\<bar> < 1 then PInf else if \<bar>a\<bar> = 1 then Fin 1 else Fin 0)"
| "pt_pow (Fin a) NaN = (if a = 1 then Fin 1 else NaN)"
| "pt_pow PInf (Fin b) = (if b = 0 then Fin 1 else if 0 < b then PInf else Fin 0)"
| "pt_pow PInf PInf = PInf"
| "pt_pow PInf NInf = Fin 0"
| "pt_pow PInf NaN = NaN"
| "pt_pow NInf (Fin b) =
     (if b = 0 then Fin 1
      else if b < 0 then Fin 0
      else if is_odd_integer b then NInf else PInf)"
| "pt_pow NInf PInf = PInf"
| "pt_pow NInf NInf = Fin 0"
| "pt_pow NInf NaN = NaN"
| "pt_pow NaN (Fin b) = (if b = 0 then Fin 1 else NaN)"
| "pt_pow NaN y = NaN"

section \<open>The parameter check\<close>

datatype error = ParameterValueError string | ValueError

text \<open>
  The two ways an evaluation can end abnormally: the \<open>ParameterValueError\<close> of a failed
  parameter check, and the \<open>ValueError\<close> of an element-wise operation on shapes that do not
  broadcast.

  \<open>CheckParameterValue(msg)(expr, cond)\<close>: the value of \<open>expr\<close> when the condition holds,
  a \<open>ParameterValueError\<close> carrying \<open>msg\<close> when the node is evaluated and it does not.
\<close>

definition CheckParameterValue :: "string \<Rightarrow> 'a \<Rightarrow> bool \<Rightarrow> error + 'a" where
  "CheckParameterValue msg expr cond = (if cond then Inr expr else Inl (ParameterValueError msg))"

text \<open>
  \<open>check_parameters(expr, *conditions, msg)\<close> of \<open>pymc.distributions.dist_math\<close> wraps
  \<open>expr\<close> in one \<open>CheckParameterValue\<close> whose condition is \<open>pt.all\<close> of all the conditions.
\<close>

definition pt_all :: "bool list \<Rightarrow> bool" where
  "pt_all conds = foldr (\<and>) conds True"

definition check_parameters :: "'a \<Rightarrow> bool list \<Rightarrow> string \<Rightarrow> error + 'a" where
  "check_parameters expr conditions msg = CheckParameterValue msg expr (pt_all conditions)"

section \<open>GenExtreme\<close>

definition GenExtreme_logp :: "fl \<Rightarrow> fl \<Rightarrow> fl \<Rightarrow> fl \<Rightarrow> error + fl" where
  "GenExtreme_logp value mu sigma xi =
     (let scaled = (value - mu) / sigma;
          logp_expression = pt_switch (pt_isclose xi (Fin 0))
            (- pt_log sigma - scaled - pt_exp (- scaled))
            (- pt_log sigma
               - ((xi + Fin 1) / xi) * pt_log1p (xi * scaled)
               - pt_pow (Fin 1 + xi * scaled) (Fin (- 1) / xi));
          logp = pt_switch (pt_gt (Fin 1 + xi * scaled) (Fin 0)) logp_expression NInf
      in check_parameters logp
           [pt_gt sigma (Fin 0), pt_and (pt_gt xi (Fin (- 1))) (pt_lt xi (Fin 1))]
           ''sigma > 0 or -1 < xi < 1'')"

definition GenExtreme_logcdf :: "fl \<Rightarrow> fl \<Rightarrow> fl \<Rightarrow> fl \<Rightarrow> error + fl" where
  "GenExtreme_logcdf value mu sigma xi =
     (let scaled = (value - mu) / sigma;
          logc_expression = pt_switch (pt_isclose xi (Fin 0))
            (- pt_exp (- scaled))
            (- pt_pow (Fin 1 + xi * scaled) (Fin (- 1) / xi));
          logc = pt_switch (pt_gt (Fin 1 + xi * (value - mu) / sigma) (Fin 0))
            logc_expression NInf
      in check_parameters logc
           [pt_gt sigma (Fin 0), pt_and (pt_gt xi (Fin (- 1))) (pt_lt xi (Fin 1))]
           ''sigma > 0 or -1 < xi < 1'')"

section \<open>GeneralizedNormal\<close>

text \<open>
  \<open>pt.gammaln\<close> and \<open>pt.gammainc\<close> (the regularized lower incomplete gamma function) are
  special functions of the tensor library; the two evaluation functions take them as their
  first argument.
\<close>

definition GeneralizedNormal_logp :: "(fl \<Rightarrow> fl) \<Rightarrow> fl \<Rightarrow> fl \<Rightarrow> fl \<Rightarrow> fl \<Rightarrow> error + fl" where
  "GeneralizedNormal_logp pt_gammaln value mu alpha beta =
     (let z = (value - mu) / alpha;
          lp = pt_log (Fin (1/2) * beta) - pt_log alpha - pt_gammaln (Fin 1 / beta)
                 - pt_pow (pt_abs z) beta
      in check_parameters lp [pt_gt alpha (Fin 0), pt_gt beta (Fin 0)] ''alpha > 0, beta > 0'')"

text \<open>
  \<open>GeneralizedNormal.logcdf\<close> returns \<open>pt.log(cdf)\<close> as it is: no check node is built, so its
  evaluation always ends normally.
\<close>

definition GeneralizedNormal_logcdf ::
  "(fl \<Rightarrow> fl \<Rightarrow> fl) \<Rightarrow> fl \<Rightarrow> fl \<Rightarrow> fl \<Rightarrow> fl \<Rightarrow> error + fl" where
  "GeneralizedNormal_logcdf pt_gammainc value mu alpha beta =
     (let z = pt_abs ((value - mu) / alpha);
          c = pt_sign (value - mu);
          cdf = Fin (1/2) + Fin (1/2) * pt_sign (value - mu)
                  * pt_gammainc (Fin 1 / beta) (pt_pow z beta)
      in Inr (pt_log cdf))"

section \<open>Arrays\<close>

text \<open>
  An array (a numpy \<open>ndarray\<close> or the value of a tensor variable) is its shape and its
  elements in row-major order. An array holds as many elements as its shape says.
\<close>

datatype 'a ndarray = NDArray (shape: "nat list") (data: "'a list")

definition well_shaped :: "'a ndarray \<Rightarrow> bool" where
  "well_shaped t = (length (data t) = prod_list (shape t))"

definition scalar :: "'a \<Rightarrow> 'a ndarray" where
  "scalar c = NDArray [] [c]"

text \<open>Unary minus on an array, \<open>-xi\<close>.\<close>

definition np_negative :: "fl ndarray \<Rightarrow> fl ndarray" where
  "np_negative t = NDArray (shape t) (map uminus (data t))"

definition pt_math_sqrt :: "fl ndarray \<Rightarrow> fl ndarray" where
  "pt_math_sqrt t = NDArray (shape t) (map pt_sqrt (data t))"

text \<open>
  Broadcasting. Two shapes are aligned at their last dimension; two aligned dimensions are
  compatible when they are equal or one of them is 1. \<open>broadcast_rev\<close> works on the reversed
  shapes.
\<close>

fun broadcast_rev :: "nat list \<Rightarrow> nat list \<Rightarrow> nat list option" where
  "broadcast_rev [] ys = Some ys"
| "broadcast_rev xs [] = Some xs"
| "broadcast_rev (x # xs) (y # ys) =
     (if x = y \<or> y = 1 then map_option ((#) x) (broadcast_rev xs ys)
      else if x = 1 then map_option ((#) y) (broadcast_rev xs ys)
      else None)"

definition broadcast_shapes :: "nat list \<Rightarrow> nat list \<Rightarrow> nat list option" where
  "broadcast_shapes s t = map_option rev (broadcast_rev (rev s) (rev t))"

text \<open>\<open>chunks n k xs\<close>: the first \<open>k\<close> consecutive blocks of length \<open>n\<close> of \<open>xs\<close>.\<close>

fun chunks :: "nat \<Rightarrow> nat \<Rightarrow> 'a list \<Rightarrow> 'a list list" where
  "chunks n 0 xs = []"
| "chunks n (Suc k) xs = take n xs # chunks n k (drop n xs)"

text \<open>
  \<open>expand src tgt xs\<close>: the elements of an array of shape \<open>src\<close> repeated to the shape \<open>tgt\<close>
  of the same rank; a dimension of length 1 is repeated along the target dimension.
\<close>

fun expand :: "nat list \<Rightarrow> nat list \<Rightarrow> 'a list \<Rightarrow> 'a list" where
  "expand (d # ds) (t # ts) xs =
     (if d = t then concat (map (expand ds ts) (chunks (prod_list ds) d xs))
      else concat (replicate t (expand ds ts xs)))"
| "expand ds ts xs = xs"

definition broadcast_to :: "nat list \<Rightarrow> 'a ndarray \<Rightarrow> 'a list" where
  "broadcast_to s t = expand (replicate (length s - length (shape t)) 1 @ shape t) s (data t)"

text \<open>A binary element-wise operation on two arrays, \<open>pt.gt(a, 0)\<close> or \<open>chi * a\<close>.\<close>

definition elemwise2 :: "('a \<Rightarrow> 'b \<Rightarrow> 'c) \<Rightarrow> 'a ndarray \<Rightarrow> 'b ndarray \<Rightarrow> error + 'c ndarray" where
  "elemwise2 f t u =
     (case broadcast_shapes (shape t) (shape u) of
        None \<Rightarrow> Inl ValueError
      | Some s \<Rightarrow> Inr (NDArray s (map2 f (broadcast_to s t) (broadcast_to s u))))"

section \<open>Chi and Maxwell\<close>

text \<open>
  A sample shape is \<open>None\<close> when the caller gave no \<open>size\<close>. A size reaches the
  distribution as a vector, the empty vector when there is none, and \<open>rv_size_is_none\<close> of
  the toolkit tests that the vector has length 0 (\<open>size.type.shape == (0,)\<close>): no size and
  the explicit empty size \<open>()\<close> are both none.
\<close>

definition rv_size_is_none :: "nat list option \<Rightarrow> bool" where
  "rv_size_is_none sz = (case sz of None \<Rightarrow> True | Some s \<Rightarrow> s = [])"

text \<open>
  The random source is the state \<open>rng\<close> of the generator that the random node of the graph
  draws from; a draw returns the variates and the state after it.

  \<open>ChiSquared.dist(nu, size)\<close> is a distribution of the toolkit. Its variates come from the
  generator's \<open>chisquare(df, size)\<close>, which the functions below take as their first
  argument; the variate has the shape \<open>size\<close>, or the shape of \<open>nu\<close> when the size is
  none.
\<close>

definition ChiSquared_dist ::
  "('g \<Rightarrow> fl ndarray \<Rightarrow> nat list \<Rightarrow> fl list \<times> 'g) \<Rightarrow> fl ndarray \<Rightarrow> nat list option \<Rightarrow> 'g
     \<Rightarrow> fl ndarray \<times> 'g" where
  "ChiSquared_dist chisquare nu sz rng =
     (let shp = (case sz of None \<Rightarrow> shape nu | Some s \<Rightarrow> if s = [] then shape nu else s);
          (xs, rng') = chisquare rng nu shp
      in (NDArray shp xs, rng'))"

definition chi_dist ::
  "('g \<Rightarrow> fl ndarray \<Rightarrow> nat list \<Rightarrow> fl list \<times> 'g) \<Rightarrow> fl ndarray \<Rightarrow> nat list option \<Rightarrow> 'g
     \<Rightarrow> fl ndarray \<times> 'g" where
  "chi_dist chisquare nu sz rng =
     (let (x, rng') = ChiSquared_dist chisquare nu sz rng in (pt_math_sqrt x, rng'))"

text \<open>\<open>Chi.dist(nu, size)\<close> is \<open>CustomDist.dist\<close> on \<open>chi_dist\<close>.\<close>

definition Chi_dist ::
  "('g \<Rightarrow> fl ndarray \<Rightarrow> nat list \<Rightarrow> fl list \<times> 'g) \<Rightarrow> fl ndarray \<Rightarrow> nat list option \<Rightarrow> 'g
     \<Rightarrow> fl ndarray \<times> 'g" where
  "Chi_dist chisquare nu sz rng = chi_dist chisquare nu sz rng"

definition maxwell_dist ::
  "('g \<Rightarrow> fl ndarray \<Rightarrow> nat list \<Rightarrow> fl list \<times> 'g) \<Rightarrow> fl ndarray \<Rightarrow> nat list option \<Rightarrow> 'g
     \<Rightarrow> error + fl ndarray \<times> 'g" where
  "maxwell_dist chisquare a sz rng =
     (let sz' = (if rv_size_is_none sz then Some (shape a) else sz) in
      case elemwise2 pt_gt a (scalar (Fin 0)) of
        Inl e \<Rightarrow> Inl e
      | Inr positive \<Rightarrow>
          (case CheckParameterValue ''a > 0'' a (pt_all (data positive)) of
             Inl e \<Rightarrow> Inl e
           | Inr a' \<Rightarrow>
               (let (chi, rng') = Chi_dist chisquare (scalar (Fin 3)) sz' rng in
                case elemwise2 (*) chi a' of
                  Inl e \<Rightarrow> Inl e
                | Inr m \<Rightarrow> Inr (m, rng'))))"

text \<open>
  The shape the draw is made with: the size when it is not none, the shape of \<open>a\<close> when
  it is. Then the constraint \<open>a > 0\<close> on a list of elements.
\<close>

definition sample_shape :: "'a ndarray \<Rightarrow> nat list option \<Rightarrow> nat list" where
  "sample_shape a sz = (case sz of None \<Rightarrow> shape a | Some s \<Rightarrow> if s = [] then shape a else s)"

definition all_positive :: "fl list \<Rightarrow> bool" where
  "all_positive xs = pt_all (map (\<lambda>x. pt_gt x (Fin 0)) xs)"

text \<open>
  The constraint as the specification words it: \<open>a > 0\<close> on the broadcast of \<open>a\<close> to the
  sample shape.
\<close>

definition positive_on_sample_shape :: "fl ndarray \<Rightarrow> nat list option \<Rightarrow> bool" where
  "positive_on_sample_shape a sz = all_positive (broadcast_to (sample_shape a sz) a)"

section \<open>The random variable operators\<close>

text \<open>
  \<open>scipy.stats.<dist>.rvs(c, loc, scale, size, random_state)\<close>. The variates come from the
  generator passed as \<open>random_state\<close>, which is advanced; with \<open>random_state=None\<close> they come
  from the global generator of numpy instead. \<open>draw\<close> is the variate generator of the
  distribution; \<open>global\<close> is the state of the global generator.
\<close>

definition rvs ::
  "('g \<Rightarrow> fl ndarray \<Rightarrow> fl ndarray \<Rightarrow> fl ndarray \<Rightarrow> nat list option \<Rightarrow> fl ndarray \<times> 'g)
     \<Rightarrow> fl ndarray \<Rightarrow> fl ndarray \<Rightarrow> fl ndarray \<Rightarrow> 'g option \<Rightarrow> nat list option \<Rightarrow> 'g
     \<Rightarrow> fl ndarray \<times> 'g option \<times> 'g" where
  "rvs draw c loc scale random_state sz global =
     (case random_state of
        None \<Rightarrow> (let (x, global') = draw global c loc scale sz in (x, None, global'))
      | Some rng \<Rightarrow> (let (x, rng') = draw rng c loc scale sz in (x, Some rng', global)))"

text \<open>
  Both \<open>rng_fn\<close> return the variates; the state of \<open>rng\<close> and of the global generator after
  the call are the second and third component.
\<close>

definition GenExtremeRV_rng_fn ::
  "('g \<Rightarrow> fl ndarray \<Rightarrow> fl ndarray \<Rightarrow> fl ndarray \<Rightarrow> nat list option \<Rightarrow> fl ndarray \<times> 'g)
     \<Rightarrow> 'g \<Rightarrow> fl ndarray \<Rightarrow> fl ndarray \<Rightarrow> fl ndarray \<Rightarrow> nat list option \<Rightarrow> 'g
     \<Rightarrow> fl ndarray \<times> 'g option \<times> 'g" where
  "GenExtremeRV_rng_fn genextreme rng mu sigma xi sz global =
     rvs genextreme (np_negative xi) mu sigma (Some rng) sz global"

definition GeneralizedNormalRV_rng_fn ::
  "('g \<Rightarrow> fl ndarray \<Rightarrow> fl ndarray \<Rightarrow> fl ndarray \<Rightarrow> nat list option \<Rightarrow> fl ndarray \<times> 'g)
     \<Rightarrow> 'g \<Rightarrow> fl ndarray \<Rightarrow> fl ndarray \<Rightarrow> fl ndarray \<Rightarrow> nat list option \<Rightarrow> 'g
     \<Rightarrow> fl ndarray \<times> 'g option \<times> 'g" where
  "GeneralizedNormalRV_rng_fn gennorm rng loc alpha beta sz global =
     rvs gennorm beta loc alpha (Some rng) sz global"

section \<open>A generator for the examples\<close>

text \<open>
  The generator state is a counter; \<open>unit_chisquare\<close> returns the variate 1 at every
  element.
\<close>

definition unit_chisquare :: "nat \<Rightarrow> fl ndarray \<Rightarrow> nat list \<Rightarrow> fl list \<times> nat" where
  "unit_chisquare rng nu shp = (replicate (prod_list shp) (Fin 1), Suc rng)"

section \<open>Evaluation lemmas\<close>

lemma Fin_arith:
  "Fin a + Fin b = Fin (a + b)"
  "Fin a - Fin b = Fin (a - b)"
  "Fin a * Fin b = Fin (a * b)"
  "- Fin a = Fin (- a)"
  "b \<noteq> 0 \<Longrightarrow> Fin a / Fin b = Fin (a / b)"
  by (simp_all add: plus_fl_def minus_fl_def times_fl_def uminus_fl_def divide_fl_def)

lemma check_parameters_eq:
  "check_parameters e cs msg = (if pt_all cs then Inr e else Inl (ParameterValueError msg))"
  by (simp add: check_parameters_def CheckParameterValue_def)

lemma pt_isclose_zero: "pt_isclose (Fin xi) (Fin 0) = (\<bar>xi\<bar> \<le> 1 / 10 ^ 8)"
  by (simp add: atol_def rtol_def)

lemma GEV_checks:
  "pt_all [pt_gt (Fin sigma) (Fin 0), pt_and (pt_gt (Fin xi) (Fin (- 1))) (pt_lt (Fin xi) (Fin 1))]
     = (0 < sigma \<and> - 1 < xi \<and> xi < 1)"
  by (simp add: pt_all_def pt_and_def pt_lt_def)

lemma GenExtreme_logp_eval:
  assumes "0 < sigma" and "- 1 < xi" and "xi < 1" and "z = (x - mu) / sigma"
  shows "GenExtreme_logp (Fin x) (Fin mu) (Fin sigma) (Fin xi) =
           Inr (if 1 + xi * z \<le> 0 then NInf
                else if \<bar>xi\<bar> \<le> 1 / 10 ^ 8 then Fin (- ln sigma - z - exp (- z))
                else Fin (- ln sigma - ((xi + 1) / xi) * ln (1 + xi * z)
                            - (1 + xi * z) powr (- 1 / xi)))"
proof -
  have sc: "(Fin x - Fin mu) / Fin sigma = Fin z"
    using assms by (simp add: Fin_arith)
  have chk: "pt_all [pt_gt (Fin sigma) (Fin 0),
       pt_and (pt_gt (Fin xi) (Fin (- 1))) (pt_lt (Fin xi) (Fin 1))]"
    unfolding GEV_checks using assms by simp
  show ?thesis
  proof (cases "1 + xi * z \<le> 0")
    case True
    then show ?thesis
      unfolding GenExtreme_logp_def Let_def sc check_parameters_eq
      using chk by (simp add: Fin_arith pt_switch_def)
  next
    case inside: False
    show ?thesis
    proof (cases "\<bar>xi\<bar> \<le> 1 / 10 ^ 8")
      case True
      then show ?thesis
        unfolding GenExtreme_logp_def Let_def sc check_parameters_eq
        using chk inside assms(1)
        by (simp add: Fin_arith pt_switch_def pt_isclose_zero del: pt_isclose.simps(1))
    next
      case False
      then have "xi \<noteq> 0" by auto
      with False show ?thesis
        unfolding GenExtreme_logp_def Let_def sc check_parameters_eq
        using chk inside assms(1)
        by (simp add: Fin_arith pt_switch_def pt_isclose_zero del: pt_isclose.simps(1))
    qed
  qed
qed

lemma GenExtreme_logcdf_eval:
  assumes "0 < sigma" and "- 1 < xi" and "xi < 1" and "z = (x - mu) / sigma"
  shows "GenExtreme_logcdf (Fin x) (Fin mu) (Fin sigma) (Fin xi) =
           Inr (if 1 + xi * z \<le> 0 then NInf
                else if \<bar>xi\<bar> \<le> 1 / 10 ^ 8 then Fin (- exp (- z))
                else Fin (- ((1 + xi * z) powr (- 1 / xi))))"
proof -
  have sc: "(Fin x - Fin mu) / Fin sigma = Fin z"
    using assms by (simp add: Fin_arith)
  have sc': "Fin xi * (Fin x - Fin mu) / Fin sigma = Fin (xi * z)"
    using assms by (simp add: Fin_arith)
  have chk: "pt_all [pt_gt (Fin sigma) (Fin 0),
       pt_and (pt_gt (Fin xi) (Fin (- 1))) (pt_lt (Fin xi) (Fin 1))]"
    unfolding GEV_checks using assms by simp
  show ?thesis
  proof (cases "1 + xi * z \<le> 0")
    case True
    then show ?thesis
      unfolding GenExtreme_logcdf_def Let_def sc sc' check_parameters_eq
      using chk by (simp add: Fin_arith pt_switch_def)
  next
    case inside: False
    show ?thesis
    proof (cases "\<bar>xi\<bar> \<le> 1 / 10 ^ 8")
      case True
      then show ?thesis
        unfolding GenExtreme_logcdf_def Let_def sc sc' check_parameters_eq
        using chk inside
        by (simp add: Fin_arith pt_switch_def pt_isclose_zero del: pt_isclose.simps(1))
    next
      case False
      then have "xi \<noteq> 0" by auto
      with False show ?thesis
        unfolding GenExtreme_logcdf_def Let_def sc sc' check_parameters_eq
        using chk inside
        by (simp add: Fin_arith pt_switch_def pt_isclose_zero del: pt_isclose.simps(1))
    qed
  qed
qed

section \<open>GenExtreme: log-density and log-CDF\<close>

text \<open>
  C2. For real \<open>x\<close>, \<open>mu\<close>, \<open>sigma > 0\<close> and \<open>xi\<close> in \<open>(-1, 1)\<close>, with \<open>z = (x - mu) / sigma\<close>,
  the log-density is \<open>-\<infinity>\<close> wherever \<open>1 + xi * z \<le> 0\<close>, whichever branch was selected;
  inside the support it is the Gumbel limit \<open>-log sigma - z - exp (-z)\<close> when \<open>xi\<close> is within
  the tolerance \<open>1e-8\<close> of zero, and
  \<open>-log sigma - ((xi + 1) / xi) * log1p (xi * z) - (1 + xi * z) ^ (-1 / xi)\<close> otherwise.
\<close>

theorem GenExtreme_logp_formula:
  assumes "0 < sigma" and "- 1 < xi" and "xi < 1" and "z = (x - mu) / sigma"
  shows "GenExtreme_logp (Fin x) (Fin mu) (Fin sigma) (Fin xi) =
           Inr (if 1 + xi * z \<le> 0 then NInf
                else if \<bar>xi\<bar> \<le> 1 / 10 ^ 8 then Fin (- ln sigma - z - exp (- z))
                else Fin (- ln sigma - ((xi + 1) / xi) * ln (1 + xi * z)
                            - (1 + xi * z) powr (- 1 / xi)))"
  using assms by (rule GenExtreme_logp_eval)

theorem GenExtreme_logp_formula_witness:
  "GenExtreme_logp (Fin 0) (Fin 0) (Fin 1) (Fin 0) = Inr (Fin (- 1))
   \<and> GenExtreme_logp (Fin 0) (Fin 0) (Fin 1) (Fin (1 / 2)) = Inr (Fin (- 1))
   \<and> GenExtreme_logp (Fin (- 2)) (Fin 0) (Fin 1) (Fin (1 / 2)) = Inr NInf"
  using GenExtreme_logp_formula [of 1 0 0 0 0]
    GenExtreme_logp_formula [of 1 "1 / 2" 0 0 0]
    GenExtreme_logp_formula [of 1 "1 / 2" "- 2" "- 2" 0]
  by simp

text \<open>
  C3. Under the same conditions the log-CDF is \<open>-\<infinity>\<close> wherever \<open>1 + xi * z \<le> 0\<close>, and
  otherwise \<open>-exp (-z)\<close> when \<open>xi\<close> is within the tolerance of zero and
  \<open>-(1 + xi * z) ^ (-1 / xi)\<close> when it is not.
\<close>

theorem GenExtreme_logcdf_formula:
  assumes "0 < sigma" and "- 1 < xi" and "xi < 1" and "z = (x - mu) / sigma"
  shows "GenExtreme_logcdf (Fin x) (Fin mu) (Fin sigma) (Fin xi) =
           Inr (if 1 + xi * z \<le> 0 then NInf
                else if \<bar>xi\<bar> \<le> 1 / 10 ^ 8 then Fin (- exp (- z))
                else Fin (- ((1 + xi * z) powr (- 1 / xi))))"
  using assms by (rule GenExtreme_logcdf_eval)

theorem GenExtreme_logcdf_formula_witness:
  "GenExtreme_logcdf (Fin 0) (Fin 0) (Fin 1) (Fin 0) = Inr (Fin (- 1))
   \<and> GenExtreme_logcdf (Fin 0) (Fin 0) (Fin 1) (Fin (1 / 2)) = Inr (Fin (- 1))
   \<and> GenExtreme_logcdf (Fin (- 2)) (Fin 0) (Fin 1) (Fin (1 / 2)) = Inr NInf"
  using GenExtreme_logcdf_formula [of 1 0 0 0 0]
    GenExtreme_logcdf_formula [of 1 "1 / 2" 0 0 0]
    GenExtreme_logcdf_formula [of 1 "1 / 2" "- 2" "- 2" 0]
  by simp

text \<open>
  C10. The log-CDF is \<open>-\<infinity>\<close> at every point with \<open>1 + xi * (x - mu) / sigma \<le> 0\<close>, on either
  side of the support. For \<open>xi < 0\<close> these are the points at or above the upper endpoint
  \<open>mu - sigma / xi\<close>, where the distribution function is 1: the value returned there is
  \<open>-\<infinity>\<close> and not 0.
\<close>

theorem GenExtreme_logcdf_outside_support:
  assumes "0 < sigma" and "- 1 < xi" and "xi < 1"
  shows "(1 + xi * ((x - mu) / sigma) \<le> 0 \<longrightarrow>
            GenExtreme_logcdf (Fin x) (Fin mu) (Fin sigma) (Fin xi) = Inr NInf)
       \<and> (xi < 0 \<and> mu - sigma / xi \<le> x \<longrightarrow>
            GenExtreme_logcdf (Fin x) (Fin mu) (Fin sigma) (Fin xi) = Inr NInf
          \<and> GenExtreme_logcdf (Fin x) (Fin mu) (Fin sigma) (Fin xi) \<noteq> Inr (Fin 0))"
proof -
  have outside: "GenExtreme_logcdf (Fin x) (Fin mu) (Fin sigma) (Fin xi) = Inr NInf"
    if "1 + xi * ((x - mu) / sigma) \<le> 0"
    using that GenExtreme_logcdf_eval [OF assms refl, of x mu] by simp
  have above: "1 + xi * ((x - mu) / sigma) \<le> 0" if "xi < 0" and "mu - sigma / xi \<le> x"
  proof -
    from that have "- (sigma / xi) \<le> x - mu" by simp
    with \<open>xi < 0\<close> have "xi * (x - mu) \<le> xi * (- (sigma / xi))"
      by (intro mult_left_mono_neg) simp_all
    moreover from \<open>xi < 0\<close> have "xi * (- (sigma / xi)) = - sigma" by simp
    ultimately have "xi * (x - mu) \<le> - sigma" by simp
    with \<open>0 < sigma\<close> have "xi * (x - mu) / sigma \<le> - 1"
      by (simp add: field_simps)
    then show ?thesis by simp
  qed
  show ?thesis using outside above by simp
qed

theorem GenExtreme_logcdf_outside_support_witness:
  "(0::real) < 1 \<and> (- 1::real) < - 1 / 2 \<and> (- 1 / 2 ::real) < 1
   \<and> (0::real) - 1 / (- 1 / 2) \<le> 3
   \<and> GenExtreme_logcdf (Fin 3) (Fin 0) (Fin 1) (Fin (- 1 / 2)) = Inr NInf
   \<and> GenExtreme_logcdf (Fin (- 3)) (Fin 0) (Fin 1) (Fin (1 / 2)) = Inr NInf"
  using GenExtreme_logcdf_outside_support [of 1 "- 1 / 2" 3 0]
    GenExtreme_logcdf_outside_support [of 1 "1 / 2" "- 3" 0]
  by simp

text \<open>
  C7. With \<open>sigma = -1\<close> the evaluation of the log-density ends in a domain violation,
  whatever the value and the other parameters are, and the violation carries the message
  \<open>sigma > 0 or -1 < xi < 1\<close>.
\<close>

theorem GenExtreme_logp_sigma_neg:
  "GenExtreme_logp value mu (Fin (- 1)) xi =
     Inl (ParameterValueError ''sigma > 0 or -1 < xi < 1'')"
  by (simp add: GenExtreme_logp_def Let_def check_parameters_eq pt_all_def)

section \<open>GeneralizedNormal: log-density and log-CDF\<close>

text \<open>
  C4. For real \<open>x\<close>, \<open>mu\<close>, \<open>alpha > 0\<close> and any \<open>beta > 0\<close>, with \<open>z = (x - mu) / alpha\<close>, the
  log-density is \<open>log (beta / (2 * alpha)) - logGamma (1 / beta) - |z| ^ beta\<close>, where \<open>g\<close> is
  the value the log-gamma function returns at \<open>1 / beta\<close>.
\<close>

theorem GeneralizedNormal_logp_formula:
  assumes "0 < alpha" and "0 < beta" and "z = (x - mu) / alpha"
    and "gammaln (Fin (1 / beta)) = Fin g"
  shows "GeneralizedNormal_logp gammaln (Fin x) (Fin mu) (Fin alpha) (Fin beta) =
           Inr (Fin (ln (beta / (2 * alpha)) - g - \<bar>z\<bar> powr beta))"
proof -
  have sc: "(Fin x - Fin mu) / Fin alpha = Fin z"
    using assms by (simp add: Fin_arith)
  have gl: "gammaln (Fin 1 / Fin beta) = Fin g"
    using assms by (simp add: Fin_arith)
  have chk: "pt_all [pt_gt (Fin alpha) (Fin 0), pt_gt (Fin beta) (Fin 0)]"
    using assms by (simp add: pt_all_def)
  have pw: "pt_pow (pt_abs (Fin z)) (Fin beta) = Fin (\<bar>z\<bar> powr beta)"
    using assms(2) by simp
  have lg: "ln (1 / 2 * beta) - ln alpha = ln (beta / (2 * alpha))"
    using assms(1,2) by (simp add: ln_div ln_mult)
  have "pt_log (Fin (1 / 2) * Fin beta) - pt_log (Fin alpha) = Fin (ln (beta / (2 * alpha)))"
    using assms(1,2) lg by (simp add: Fin_arith)
  then show ?thesis
    unfolding GeneralizedNormal_logp_def Let_def sc gl pw check_parameters_eq
    using chk by (simp add: Fin_arith)
qed

text \<open>The witness is the Laplace case \<open>beta = 1\<close>, where \<open>logGamma 1 = 0\<close>.\<close>

theorem GeneralizedNormal_logp_formula_witness:
  "(0::real) < 1
   \<and> GeneralizedNormal_logp (\<lambda>t. Fin 0) (Fin 3) (Fin 1) (Fin 1) (Fin 1) = Inr (Fin (ln (1 / 2) - 2))"
  using GeneralizedNormal_logp_formula [of 1 1 2 3 1 "\<lambda>t. Fin 0" 0]
  by simp

text \<open>
  C5. For real \<open>x\<close>, \<open>mu\<close>, \<open>alpha > 0\<close> and \<open>beta > 0\<close>, with \<open>z = |x - mu| / alpha\<close> and \<open>p\<close>
  the value of the regularized lower incomplete gamma function at \<open>(1 / beta, z ^ beta)\<close>,
  the log-CDF is the logarithm of the distribution function
  \<open>1/2 + 1/2 * sign (x - mu) * p\<close>, computed first.
\<close>

theorem GeneralizedNormal_logcdf_formula:
  assumes "0 < alpha" and "0 < beta" and "z = \<bar>x - mu\<bar> / alpha"
    and "gammainc (Fin (1 / beta)) (Fin (z powr beta)) = Fin p"
  shows "GeneralizedNormal_logcdf gammainc (Fin x) (Fin mu) (Fin alpha) (Fin beta) =
           Inr (pt_log (Fin (1 / 2 + 1 / 2 * sgn (x - mu) * p)))"
proof -
  have sc: "pt_abs ((Fin x - Fin mu) / Fin alpha) = Fin z"
    using assms by (simp add: Fin_arith)
  have "0 \<le> z" using assms by simp
  then have pw: "pt_pow (Fin z) (Fin beta) = Fin (z powr beta)"
    using assms(2) by simp
  have gi: "gammainc (Fin 1 / Fin beta) (Fin (z powr beta)) = Fin p"
    using assms by (simp add: Fin_arith)
  show ?thesis
    unfolding GeneralizedNormal_logcdf_def Let_def sc pw gi
    by (simp add: Fin_arith)
qed

text \<open>
  The witness is again \<open>beta = 1\<close>, where the regularized lower incomplete gamma function is
  \<open>P (1, t) = 1 - exp (-t)\<close>.
\<close>

theorem GeneralizedNormal_logcdf_formula_witness:
  "(0::real) < 1
   \<and> GeneralizedNormal_logcdf (\<lambda>a t. case t of Fin r \<Rightarrow> Fin (1 - exp (- r)) | _ \<Rightarrow> NaN)
        (Fin 2) (Fin 1) (Fin 1) (Fin 1)
      = Inr (pt_log (Fin (1 / 2 + 1 / 2 * (1 - exp (- 1)))))"
  using GeneralizedNormal_logcdf_formula [of 1 1 1 2 1
      "\<lambda>a t. case t of Fin r \<Rightarrow> Fin (1 - exp (- r)) | _ \<Rightarrow> NaN" "1 - exp (- 1)"]
  by simp

section \<open>The parameter check on every evaluation path\<close>

text \<open>
  C1. Every log-density and log-CDF is to pass its result through the parameter check of
  its distribution. \<open>GeneralizedNormal.logp\<close> does: with \<open>alpha = -1\<close> its evaluation ends in
  the domain violation. \<open>GeneralizedNormal.logcdf\<close> does not: with the same parameters it
  returns the logarithm it computed.
\<close>

theorem GeneralizedNormal_logcdf_unchecked:
  "GeneralizedNormal_logp gammaln (Fin 1) (Fin 0) (Fin (- 1)) (Fin 1) =
     Inl (ParameterValueError ''alpha > 0, beta > 0'')
   \<and> GeneralizedNormal_logcdf gammainc (Fin 1) (Fin 0) (Fin (- 1)) (Fin 1) =
     Inr (pt_log (Fin (1 / 2) + Fin (1 / 2) * gammainc (Fin 1) (Fin 1)))"
  by (simp add: GeneralizedNormal_logp_def GeneralizedNormal_logcdf_def Let_def
      check_parameters_eq pt_all_def Fin_arith)

section \<open>Broadcasting lemmas\<close>

lemma broadcast_rev_same: "broadcast_rev s s = Some s"
  by (induction s) simp_all

lemma broadcast_shapes_same: "broadcast_shapes s s = Some s"
  by (simp add: broadcast_shapes_def broadcast_rev_same)

lemma broadcast_rev_Nil2: "broadcast_rev s [] = Some s"
  by (cases s) simp_all

lemma broadcast_shapes_scalar: "broadcast_shapes s [] = Some s"
  by (simp add: broadcast_shapes_def broadcast_rev_Nil2)

lemma concat_chunks: "concat (chunks n k xs) = take (k * n) xs"
proof (induction k arbitrary: xs)
  case 0
  then show ?case by simp
next
  case (Suc k)
  have "take n xs @ take (k * n) (drop n xs) = take (n + k * n) xs"
    by (simp add: take_add)
  with Suc show ?case by simp
qed

lemma length_chunks: "k * n \<le> length xs \<Longrightarrow> c \<in> set (chunks n k xs) \<Longrightarrow> length c = n"
proof (induction k arbitrary: xs)
  case 0
  then show ?case by simp
next
  case (Suc k)
  from Suc.prems(1) have n: "n \<le> length xs" and rest: "k * n \<le> length (drop n xs)"
    by simp_all
  from Suc.prems(2) consider "c = take n xs" | "c \<in> set (chunks n k (drop n xs))"
    by auto
  then show ?case
  proof cases
    case 1
    with n show ?thesis by simp
  next
    case 2
    with rest show ?thesis by (rule Suc.IH)
  qed
qed

lemma expand_same: "length xs = prod_list s \<Longrightarrow> expand s s xs = xs"
proof (induction s arbitrary: xs)
  case Nil
  then show ?case by simp
next
  case (Cons d ds)
  have "map (expand ds ds) (chunks (prod_list ds) d xs) = chunks (prod_list ds) d xs"
  proof (rule map_idI)
    fix c assume "c \<in> set (chunks (prod_list ds) d xs)"
    with Cons.prems have "length c = prod_list ds"
      by (intro length_chunks [of d "prod_list ds" xs]) simp_all
    then show "expand ds ds c = c" by (rule Cons.IH)
  qed
  with Cons.prems show ?case by (simp add: concat_chunks)
qed

lemma broadcast_to_same: "well_shaped t \<Longrightarrow> broadcast_to (shape t) t = data t"
  by (simp add: broadcast_to_def well_shaped_def expand_same)

lemma concat_replicate_replicate: "concat (replicate t (replicate m c)) = replicate (t * m) c"
  by (induction t) (simp_all add: replicate_add)

lemma expand_ones: "expand (replicate (length s) (Suc 0)) s [c] = replicate (prod_list s) c"
proof (induction s)
  case Nil
  then show ?case by simp
next
  case (Cons t ts)
  show ?case
  proof (cases "t = Suc 0")
    case True
    with Cons show ?thesis by simp
  next
    case False
    then have "Suc 0 \<noteq> t" by simp
    with Cons show ?thesis by (simp add: concat_replicate_replicate)
  qed
qed

lemma broadcast_to_scalar: "broadcast_to s (scalar c) = replicate (prod_list s) c"
  by (simp add: broadcast_to_def scalar_def expand_ones)


lemma set_expand:
  "length src = length tgt \<Longrightarrow> list_all2 (\<lambda>d t. d = t \<or> d = 1) src tgt \<Longrightarrow>
   length xs = prod_list src \<Longrightarrow> prod_list tgt \<noteq> 0 \<Longrightarrow> set (expand src tgt xs) = set xs"
proof (induction src tgt xs rule: expand.induct)
  case (1 d ds t ts xs)
  show ?case
  proof (cases "d = t")
    case True
    have "set (expand ds ts c) = set c" if "c \<in> set (chunks (prod_list ds) d xs)" for c
    proof -
      from that "1.prems" have "length c = prod_list ds"
        by (intro length_chunks [of d "prod_list ds" xs]) simp_all
      with "1.IH"(1) [OF True that] "1.prems" show ?thesis by simp
    qed
    then have "set (concat (map (expand ds ts) (chunks (prod_list ds) d xs)))
        = set (concat (chunks (prod_list ds) d xs))" by simp
    with True "1.prems" show ?thesis by (simp add: concat_chunks)
  next
    case False
    with "1.prems" have d: "d = 1" and t: "0 < t" by auto
    with "1.IH"(2) [OF False] "1.prems" have "set (expand ds ts xs) = set xs" by simp
    with False t show ?thesis by auto
  qed
qed simp_all


section \<open>Evaluation of the samplers\<close>

lemma pt_all_iff: "pt_all bs = (\<forall>b \<in> set bs. b)"
  by (induction bs) (simp_all add: pt_all_def)

lemma all_positive_iff: "all_positive xs = (\<forall>x \<in> set xs. pt_gt x (Fin 0))"
  by (simp add: all_positive_def pt_all_iff)

lemma map2_replicate: "map2 f xs (replicate (length xs) c) = map (\<lambda>x. f x c) xs"
  by (induction xs) simp_all

lemma gt_scalar:
  assumes "well_shaped a"
  shows "elemwise2 pt_gt a (scalar c) = Inr (NDArray (shape a) (map (\<lambda>x. pt_gt x c) (data a)))"
proof -
  have "broadcast_shapes (shape a) (shape (scalar c)) = Some (shape a)"
    by (simp add: scalar_def broadcast_shapes_scalar)
  moreover have "broadcast_to (shape a) (scalar c) = replicate (length (data a)) c"
    using assms by (simp add: broadcast_to_scalar well_shaped_def)
  ultimately show ?thesis
    using assms by (simp add: elemwise2_def broadcast_to_same map2_replicate)
qed

lemma Chi_dist_eval:
  "Chi_dist K (scalar c) (Some shp) rng =
     (NDArray shp (map pt_sqrt (fst (K rng (scalar c) shp))), snd (K rng (scalar c) shp))"
  by (simp add: Chi_dist_def chi_dist_def ChiSquared_dist_def pt_math_sqrt_def scalar_def
      split: prod.splits)

lemma sample_shape_none: "rv_size_is_none sz \<Longrightarrow> sample_shape a sz = shape a"
  by (simp add: rv_size_is_none_def sample_shape_def split: option.splits)

lemma sample_shape_explicit: "\<not> rv_size_is_none sz \<Longrightarrow> sz = Some (sample_shape a sz)"
  by (simp add: rv_size_is_none_def sample_shape_def split: option.splits)

lemma maxwell_dist_eval:
  assumes "well_shaped a"
  shows "maxwell_dist K a sz rng =
     (if all_positive (data a)
      then (case elemwise2 (*)
                   (NDArray (sample_shape a sz)
                      (map pt_sqrt (fst (K rng (scalar (Fin 3)) (sample_shape a sz))))) a of
              Inl e \<Rightarrow> Inl e
            | Inr m \<Rightarrow> Inr (m, snd (K rng (scalar (Fin 3)) (sample_shape a sz))))
      else Inl (ParameterValueError ''a > 0''))"
proof -
  have sz: "(if rv_size_is_none sz then Some (shape a) else sz) = Some (sample_shape a sz)"
    by (simp add: rv_size_is_none_def sample_shape_def split: option.splits)
  show ?thesis
    unfolding maxwell_dist_def Let_def sz gt_scalar [OF assms] Chi_dist_eval
    by (simp add: CheckParameterValue_def all_positive_def)
qed

lemma maxwell_dist_default_shape:
  assumes "well_shaped a" and "all_positive (data a)"
    and "length (fst (K rng (scalar (Fin 3)) (shape a))) = prod_list (shape a)"
    and "rv_size_is_none sz"
  shows "maxwell_dist K a sz rng =
     Inr (NDArray (shape a) (map2 (*) (map pt_sqrt (fst (K rng (scalar (Fin 3)) (shape a)))) (data a)),
          snd (K rng (scalar (Fin 3)) (shape a)))"
proof -
  let ?chi = "NDArray (shape a) (map pt_sqrt (fst (K rng (scalar (Fin 3)) (shape a))))"
  have "well_shaped ?chi" using assms(3) by (simp add: well_shaped_def)
  then have "broadcast_to (shape a) ?chi = data ?chi"
    using broadcast_to_same [of ?chi] by simp
  then have "elemwise2 (*) ?chi a = Inr (NDArray (shape a) (map2 (*) (data ?chi) (data a)))"
    using assms(1) by (simp add: elemwise2_def broadcast_shapes_same broadcast_to_same)
  then show ?thesis
    using assms(2) by (simp add: maxwell_dist_eval [OF assms(1)] sample_shape_none [OF assms(4)])
qed


lemma broadcast_rev_onto:
  "broadcast_rev xs ys = Some xs \<Longrightarrow>
     length ys \<le> length xs
     \<and> list_all2 (\<lambda>d t. d = t \<or> d = 1) (ys @ replicate (length xs - length ys) 1) xs"
proof (induction xs ys rule: broadcast_rev.induct)
  case (1 ys)
  then show ?case by simp
next
  case (2 x xs)
  then show ?case by (simp add: list_all2_conv_all_nth nth_Cons')
next
  case (3 x xs y ys)
  show ?case
  proof (cases "x = y \<or> y = 1")
    case True
    with "3.prems" have "broadcast_rev xs ys = Some xs" by auto
    with "3.IH"(1) [OF True] True show ?thesis by auto
  next
    case False
    with "3.prems" show ?thesis by (auto split: if_splits)
  qed
qed

lemma broadcast_shapes_onto:
  assumes "broadcast_shapes s u = Some s"
  shows "length u \<le> length s"
    and "list_all2 (\<lambda>d t. d = t \<or> d = 1) (replicate (length s - length u) 1 @ u) s"
proof -
  from assms have "broadcast_rev (rev s) (rev u) = Some (rev s)"
    by (auto simp: broadcast_shapes_def)
  from broadcast_rev_onto [OF this]
  have len: "length u \<le> length s"
    and all2: "list_all2 (\<lambda>d t. d = t \<or> d = 1)
                 (rev u @ replicate (length s - length u) 1) (rev s)"
    by simp_all
  show "length u \<le> length s" by (rule len)
  have "rev (replicate (length s - length u) 1 @ u) = rev u @ replicate (length s - length u) 1"
    by simp
  with all2 have "list_all2 (\<lambda>d t. d = t \<or> d = 1)
      (rev (replicate (length s - length u) 1 @ u)) (rev s)" by simp
  then show "list_all2 (\<lambda>d t. d = t \<or> d = 1) (replicate (length s - length u) 1 @ u) s"
    by (simp only: list_all2_rev)
qed

lemma set_broadcast_to:
  assumes "well_shaped a" and "broadcast_shapes s (shape a) = Some s" and "prod_list s \<noteq> 0"
  shows "set (broadcast_to s a) = set (data a)"
proof -
  let ?src = "replicate (length s - length (shape a)) 1 @ shape a"
  from broadcast_shapes_onto [OF assms(2)]
  have len: "length (shape a) \<le> length s"
    and all2: "list_all2 (\<lambda>d t. d = t \<or> d = 1) ?src s" by simp_all
  from len have "length ?src = length s" by simp
  moreover from assms(1) have "length (data a) = prod_list ?src"
    by (simp add: well_shaped_def)
  ultimately show ?thesis
    using all2 assms(3) by (simp add: broadcast_to_def set_expand)
qed

lemma set_chunks: "c \<in> set (chunks n k xs) \<Longrightarrow> set c \<subseteq> set xs"
proof (induction k arbitrary: xs)
  case 0
  then show ?case by simp
next
  case (Suc k)
  from Suc.prems consider "c = take n xs" | "c \<in> set (chunks n k (drop n xs))"
    by auto
  then show ?case
  proof cases
    case 1
    then show ?thesis by (simp add: set_take_subset)
  next
    case 2
    then have "set c \<subseteq> set (drop n xs)" by (rule Suc.IH)
    also have "\<dots> \<subseteq> set xs" by (rule set_drop_subset)
    finally show ?thesis .
  qed
qed

lemma set_expand_subset: "set (expand src tgt xs) \<subseteq> set xs"
proof (induction src tgt xs rule: expand.induct)
  case (1 d ds t ts xs)
  show ?case
  proof (cases "d = t")
    case True
    have "set (expand ds ts c) \<subseteq> set xs" if "c \<in> set (chunks (prod_list ds) d xs)" for c
      using "1.IH"(1) [OF True that] set_chunks [OF that] by blast
    with True show ?thesis by auto
  next
    case False
    with "1.IH"(2) [OF False] show ?thesis by auto
  qed
qed simp_all

lemma positive_on_sample_shape_if: "all_positive (data a) \<Longrightarrow> positive_on_sample_shape a sz"
  using set_expand_subset [of _ "sample_shape a sz" "data a"]
  by (auto simp: positive_on_sample_shape_def all_positive_iff broadcast_to_def)

lemma positive_on_sample_shape_eq:
  assumes "well_shaped a"
    and "broadcast_shapes (sample_shape a sz) (shape a) = Some (sample_shape a sz)"
    and "prod_list (sample_shape a sz) \<noteq> 0"
  shows "positive_on_sample_shape a sz = all_positive (data a)"
  using set_broadcast_to [OF assms]
  by (simp add: positive_on_sample_shape_def all_positive_iff)

section \<open>Sampling\<close>

text \<open>
  C6. \<open>GenExtremeRV.rng_fn\<close> delegates to the generalized-extreme-value variate generator:
  the variates are those the generator draws from \<open>rng\<close> with shape parameter \<open>c = -xi\<close>, the
  element-wise negation of \<open>xi\<close>, with \<open>mu\<close> as location, \<open>sigma\<close> as scale and the given size.
\<close>

theorem GenExtremeRV_rng_fn_negates_xi:
  "GenExtremeRV_rng_fn genextreme rng mu sigma xi sz global =
     (fst (genextreme rng (np_negative xi) mu sigma sz),
      Some (snd (genextreme rng (np_negative xi) mu sigma sz)), global)
   \<and> shape (np_negative xi) = shape xi
   \<and> data (np_negative xi) = map uminus (data xi)
   \<and> np_negative (NDArray s (map Fin rs)) = NDArray s (map (\<lambda>r. Fin (- r)) rs)"
  by (simp add: GenExtremeRV_rng_fn_def rvs_def np_negative_def Fin_arith split: prod.splits)

text \<open>
  C8. For every array \<open>a\<close>, Maxwell sampling is scale times Chi. When the size is none the
  sample shape is the shape of \<open>a\<close>, and otherwise it is the size. The check \<open>a > 0\<close> is
  made on \<open>a\<close> before the scaling: a failed check ends the draw with the message \<open>a > 0\<close>,
  and it fails whenever an element of the broadcast of \<open>a\<close> to the sample shape is not
  positive. Otherwise the draw is a Chi variate with \<open>nu = 3\<close> of the sample shape, the
  square root of a ChiSquared variate, multiplied element-wise by \<open>a\<close>; when the size is
  none the product is taken element by element without any repetition. The check on \<open>a\<close>
  is the check on the broadcast of \<open>a\<close> to the sample shape whenever \<open>a\<close> broadcasts to
  that shape and the shape has no dimension of length zero.
\<close>

theorem maxwell_dist_scale_times_chi:
  assumes "well_shaped a"
  shows "maxwell_dist K a sz rng =
           (if all_positive (data a)
            then (case elemwise2 (*) (fst (Chi_dist K (scalar (Fin 3)) (Some (sample_shape a sz)) rng)) a of
                    Inl e \<Rightarrow> Inl e
                  | Inr m \<Rightarrow> Inr (m, snd (Chi_dist K (scalar (Fin 3)) (Some (sample_shape a sz)) rng)))
            else Inl (ParameterValueError ''a > 0''))
       \<and> (rv_size_is_none sz \<longrightarrow> sample_shape a sz = shape a)
       \<and> (\<not> rv_size_is_none sz \<longrightarrow> sz = Some (sample_shape a sz))
       \<and> shape (fst (Chi_dist K (scalar (Fin 3)) (Some (sample_shape a sz)) rng)) = sample_shape a sz
       \<and> fst (Chi_dist K (scalar (Fin 3)) (Some (sample_shape a sz)) rng) =
           pt_math_sqrt (fst (ChiSquared_dist K (scalar (Fin 3)) (Some (sample_shape a sz)) rng))
       \<and> (\<not> positive_on_sample_shape a sz \<longrightarrow>
            maxwell_dist K a sz rng = Inl (ParameterValueError ''a > 0''))
       \<and> (rv_size_is_none sz \<and> all_positive (data a)
            \<and> length (fst (K rng (scalar (Fin 3)) (shape a))) = prod_list (shape a) \<longrightarrow>
          maxwell_dist K a sz rng =
            Inr (NDArray (shape a)
                   (map2 (*) (map pt_sqrt (fst (K rng (scalar (Fin 3)) (shape a)))) (data a)),
                 snd (K rng (scalar (Fin 3)) (shape a))))
       \<and> (broadcast_shapes (sample_shape a sz) (shape a) = Some (sample_shape a sz)
            \<and> prod_list (sample_shape a sz) \<noteq> 0 \<longrightarrow>
          positive_on_sample_shape a sz = all_positive (data a))"
proof (intro conjI impI)
  show "maxwell_dist K a sz rng =
           (if all_positive (data a)
            then (case elemwise2 (*) (fst (Chi_dist K (scalar (Fin 3)) (Some (sample_shape a sz)) rng)) a of
                    Inl e \<Rightarrow> Inl e
                  | Inr m \<Rightarrow> Inr (m, snd (Chi_dist K (scalar (Fin 3)) (Some (sample_shape a sz)) rng)))
            else Inl (ParameterValueError ''a > 0''))"
    by (simp add: maxwell_dist_eval [OF assms] Chi_dist_eval cong: sum.case_cong)
  show "shape (fst (Chi_dist K (scalar (Fin 3)) (Some (sample_shape a sz)) rng)) = sample_shape a sz"
    by (simp add: Chi_dist_eval)
  show "fst (Chi_dist K (scalar (Fin 3)) (Some (sample_shape a sz)) rng) =
           pt_math_sqrt (fst (ChiSquared_dist K (scalar (Fin 3)) (Some (sample_shape a sz)) rng))"
    by (simp add: Chi_dist_def chi_dist_def split: prod.splits)
next
  assume "rv_size_is_none sz"
  then show "sample_shape a sz = shape a" by (rule sample_shape_none)
next
  assume "\<not> rv_size_is_none sz"
  then show "sz = Some (sample_shape a sz)" by (rule sample_shape_explicit)
next
  assume "\<not> positive_on_sample_shape a sz"
  then have "\<not> all_positive (data a)"
    using positive_on_sample_shape_if [of a sz] by blast
  then show "maxwell_dist K a sz rng = Inl (ParameterValueError ''a > 0'')"
    by (simp add: maxwell_dist_eval [OF assms])
next
  assume "rv_size_is_none sz \<and> all_positive (data a)
            \<and> length (fst (K rng (scalar (Fin 3)) (shape a))) = prod_list (shape a)"
  then show "maxwell_dist K a sz rng =
            Inr (NDArray (shape a)
                   (map2 (*) (map pt_sqrt (fst (K rng (scalar (Fin 3)) (shape a)))) (data a)),
                 snd (K rng (scalar (Fin 3)) (shape a)))"
    using maxwell_dist_default_shape [OF assms, of K rng sz] by simp
next
  assume "broadcast_shapes (sample_shape a sz) (shape a) = Some (sample_shape a sz)
            \<and> prod_list (sample_shape a sz) \<noteq> 0"
  then show "positive_on_sample_shape a sz = all_positive (data a)"
    using positive_on_sample_shape_eq [OF assms, of sz] by simp
qed

text \<open>
  The witness draws from the generator whose ChiSquared variates are all 1: with
  \<open>a = [1, 2]\<close> and the empty size \<open>()\<close> the sample shape is that of \<open>a\<close> and the draw
  is \<open>[1, 2]\<close>; with the size \<open>(2, 2)\<close> it is \<open>[[1, 2], [1, 2]]\<close>; with \<open>a = [1, -2]\<close>
  and no size the broadcast of \<open>a\<close> has a negative element and the draw ends in the
  domain violation.
\<close>

theorem maxwell_dist_scale_times_chi_witness:
  "well_shaped (NDArray [2] [Fin 1, Fin 2])
   \<and> rv_size_is_none (Some [])
   \<and> sample_shape (NDArray [2] [Fin 1, Fin 2]) (Some []) = [2]
   \<and> maxwell_dist unit_chisquare (NDArray [2] [Fin 1, Fin 2]) (Some []) 0 =
       Inr (NDArray [2] [Fin 1, Fin 2], 1)
   \<and> \<not> rv_size_is_none (Some [2, 2])
   \<and> maxwell_dist unit_chisquare (NDArray [2] [Fin 1, Fin 2]) (Some [2, 2]) 0 =
       Inr (NDArray [2, 2] [Fin 1, Fin 2, Fin 1, Fin 2], 1)
   \<and> positive_on_sample_shape (NDArray [2] [Fin 1, Fin 2]) (Some [2, 2])
   \<and> well_shaped (NDArray [2] [Fin 1, Fin (- 2)])
   \<and> \<not> positive_on_sample_shape (NDArray [2] [Fin 1, Fin (- 2)]) None
   \<and> maxwell_dist unit_chisquare (NDArray [2] [Fin 1, Fin (- 2)]) None 0 =
       Inl (ParameterValueError ''a > 0'')"
proof -
  let ?a = "NDArray [2] [Fin 1, Fin 2]"
  let ?b = "NDArray [2] [Fin 1, Fin (- 2)]"
  have ws: "well_shaped ?a" and wsb: "well_shaped ?b"
    by (simp_all add: well_shaped_def)
  have none: "rv_size_is_none (Some [])" and some: "\<not> rv_size_is_none (Some [2, 2])"
    by (simp_all add: rv_size_is_none_def)
  have pos: "all_positive (data ?a)"
    by (simp add: all_positive_def pt_all_def)
  note dflt = maxwell_dist_scale_times_chi [OF ws, of unit_chisquare "Some []" 0]
  note expl = maxwell_dist_scale_times_chi [OF ws, of unit_chisquare "Some [2, 2]" 0]
  note viol = maxwell_dist_scale_times_chi [OF wsb, of unit_chisquare None 0]
  have shp: "sample_shape ?a (Some []) = [2]"
    using dflt [THEN conjunct2, THEN conjunct1] none by simp
  have shp2: "Some [2, 2] = Some (sample_shape ?a (Some [2, 2]))"
    using expl [THEN conjunct2, THEN conjunct2, THEN conjunct1] some by simp
  have d1: "maxwell_dist unit_chisquare ?a (Some []) 0 = Inr (?a, 1)"
    using dflt [THEN conjunct2, THEN conjunct2, THEN conjunct2, THEN conjunct2, THEN conjunct2,
        THEN conjunct2, THEN conjunct1] none pos
    by (simp add: unit_chisquare_def numeral_2_eq_2 Fin_arith)
  have bc: "broadcast_shapes [2, 2] [2] = Some [2, 2]"
    by (simp add: broadcast_shapes_def)
  have p2: "positive_on_sample_shape ?a (Some [2, 2])"
    using expl [THEN conjunct2, THEN conjunct2, THEN conjunct2, THEN conjunct2, THEN conjunct2,
        THEN conjunct2, THEN conjunct2] pos bc
    by (simp add: sample_shape_def)
  have npos: "\<not> positive_on_sample_shape ?b None"
    by (simp add: positive_on_sample_shape_def sample_shape_def broadcast_to_def all_positive_def
        pt_all_def numeral_2_eq_2)
  have v: "maxwell_dist unit_chisquare ?b None 0 = Inl (ParameterValueError ''a > 0'')"
    using viol [THEN conjunct2, THEN conjunct2, THEN conjunct2, THEN conjunct2, THEN conjunct2,
        THEN conjunct1] npos by simp
  have ss: "sample_shape ?a (Some [2, 2]) = [2, 2]"
    by (simp add: sample_shape_def)
  have "replicate (prod_list [2, 2]) (Fin 1) = [Fin 1, Fin 1, Fin 1, Fin 1]"
    by (simp add: eval_nat_numeral)
  then have chi: "Chi_dist unit_chisquare (scalar (Fin 3)) (Some [2, 2]) 0 =
      (NDArray [2, 2] [Fin 1, Fin 1, Fin 1, Fin 1], 1)"
    by (simp add: Chi_dist_eval unit_chisquare_def)
  have bt1: "broadcast_to [2, 2] (NDArray [2, 2] [Fin 1, Fin 1, Fin 1, Fin 1]) =
      [Fin 1, Fin 1, Fin 1, Fin 1]"
    by (simp add: broadcast_to_def numeral_2_eq_2)
  have bt2: "broadcast_to [2, 2] ?a = [Fin 1, Fin 2, Fin 1, Fin 2]"
    by (simp add: broadcast_to_def numeral_2_eq_2)
  have em: "elemwise2 (*) (NDArray [2, 2] [Fin 1, Fin 1, Fin 1, Fin 1]) ?a =
      Inr (NDArray [2, 2] [Fin 1, Fin 2, Fin 1, Fin 2])"
    by (simp add: elemwise2_def bc bt1 bt2 Fin_arith)
  have d2: "maxwell_dist unit_chisquare ?a (Some [2, 2]) 0 =
      Inr (NDArray [2, 2] [Fin 1, Fin 2, Fin 1, Fin 2], 1)"
    unfolding expl [THEN conjunct1] ss chi using pos by (simp add: em)
  from ws wsb none some shp d1 d2 p2 npos v show ?thesis by simp
qed

end
